theory Spec2Isabelle
  imports Main "HOL-Library.AList" "HOL-Library.Sublist"
begin

section \<open>LoadSingleImage: a shallow embedding of \<^verbatim>\<open>cellprofiler/modules/loadsingleimage.py\<close>\<close>

text \<open>
  The module keeps a folder choice, a custom folder and a list of file entries; \<^verbatim>\<open>run\<close>
  resolves every file pattern through the workspace's metadata substitution and appends one
  lazy image provider per dictionary entry to the image set of the workspace.

  Python exceptions are values of \<open>error\<close>; a method that can raise returns \<open>error + 'a\<close>
  with \<open>Inl\<close> for the exception. \<^verbatim>\<open>remove_file\<close>, \<^verbatim>\<open>get_base_directory\<close> and \<^verbatim>\<open>run\<close>
  raise before they have changed anything, so for them \<open>Inl e\<close> stands for "raised, state
  as before the call". \<^verbatim>\<open>prepare_settings\<close> can raise after it has removed entries; the
  model then gives the exception alone.
\<close>

subsection \<open>Python values the module relies on\<close>

datatype error = ValueError | IndexError | KeyError | UnboundLocalError

text \<open>
  \<^verbatim>\<open>uuid.uuid1()\<close> of the Python library: every call gives a value no earlier call gave.
  The generator is a counter that is threaded through the methods that draw from it.
\<close>

type_synonym uuid = nat

definition uuid1 :: "nat \<Rightarrow> uuid \<times> nat" where
  "uuid1 clock = (clock, Suc clock)"

text \<open>\<^verbatim>\<open>xs.index(x)\<close>: position of the first occurrence, \<^verbatim>\<open>ValueError\<close> when there is none.\<close>

fun list_index :: "'a list \<Rightarrow> 'a \<Rightarrow> error + nat" where
  "list_index [] x = Inl ValueError"
| "list_index (y # ys) x =
     (if y = x then Inr 0
      else case list_index ys x of Inl e \<Rightarrow> Inl e | Inr i \<Rightarrow> Inr (Suc i))"

text \<open>\<^verbatim>\<open>del xs[i]\<close> for a non-negative index: \<^verbatim>\<open>IndexError\<close> when out of range.\<close>

definition list_del :: "'a list \<Rightarrow> nat \<Rightarrow> error + 'a list" where
  "list_del xs i = (if i < length xs then Inr (take i xs @ drop (Suc i) xs) else Inl IndexError)"

text \<open>
  A Python dictionary from strings to strings is an association list with one pair per key;
  \<^verbatim>\<open>d[k] = v\<close> is \<^const>\<open>AList.update\<close> (replace the value of an existing key, otherwise
  add the pair). \<^verbatim>\<open>d[k]\<close> raises \<^verbatim>\<open>KeyError\<close> for a missing key.

  The source is Python 2: \<^verbatim>\<open>d.keys()\<close> lists the keys in the order of their hash-table
  slots, which the program does not control. The parameter \<open>slot\<close> stands for that order:
  the keys are listed by increasing \<open>slot\<close>. Every theorem about \<^verbatim>\<open>run\<close> holds for every
  \<open>slot\<close>.
\<close>

type_synonym dict = "(string \<times> string) list"

definition dict_get :: "dict \<Rightarrow> string \<Rightarrow> error + string" where
  "dict_get d k = (case map_of d k of None \<Rightarrow> Inl KeyError | Some v \<Rightarrow> Inr v)"

definition dict_keys :: "(string \<Rightarrow> nat) \<Rightarrow> dict \<Rightarrow> string list" where
  "dict_keys slot d = sort_key slot (map fst d)"

text \<open>\<^verbatim>\<open>"%d" % i\<close> for a Python integer.\<close>

fun digits :: "nat \<Rightarrow> string" where
  "digits n = (if n < 10 then [''0123456789'' ! n]
               else digits (n div 10) @ [''0123456789'' ! (n mod 10)])"

definition format_d :: "int \<Rightarrow> string" where
  "format_d i = (if i < 0 then CHR ''-'' # digits (nat (- i)) else digits (nat i))"

text \<open>
  The parts of the \<^verbatim>\<open>os\<close> module and of \<^verbatim>\<open>cellprofiler.preferences\<close> that
  \<^verbatim>\<open>get_base_directory\<close> reads. \<^verbatim>\<open>os.altsep\<close> is \<^verbatim>\<open>None\<close> on platforms with one
  separator. \<^verbatim>\<open>os.path.join\<close> is a parameter.
\<close>

record os_module =
  sep :: char
  altsep :: "char option"
  path_join :: "string \<Rightarrow> string \<Rightarrow> string"

record preferences =
  default_image_directory :: string
  default_output_directory :: string

subsection \<open>Settings\<close>

datatype callback = add_file_callback | remove_file_callback uuid

text \<open>
  The setting classes of \<^verbatim>\<open>cellprofiler.settings\<close> that the module instantiates. A
  \<open>Choice\<close> carries its text, its choices and its value; \<open>Text\<close> and
  \<open>FileImageNameProvider\<close> carry their text and their value; a \<open>DoSomething\<close> button
  carries its text, its label and its callback with the callback's argument.
\<close>

datatype setting =
    Choice string "string list" string
  | Text string string
  | FileImageNameProvider string string

datatype button = DoSomething string string callback

fun value_of :: "setting \<Rightarrow> string" where
  "value_of (Choice _ _ v) = v"
| "value_of (Text _ v) = v"
| "value_of (FileImageNameProvider _ v) = v"

definition DIR_DEFAULT_IMAGE_FOLDER :: string where
  "DIR_DEFAULT_IMAGE_FOLDER = ''Default input folder''"

definition DIR_DEFAULT_OUTPUT_FOLDER :: string where
  "DIR_DEFAULT_OUTPUT_FOLDER = ''Default output folder''"

definition DIR_CUSTOM_FOLDER :: string where
  "DIR_CUSTOM_FOLDER = ''Custom folder''"

text \<open>
  One entry of \<^verbatim>\<open>self.file_settings\<close>: the dictionary literal of \<^verbatim>\<open>add_file\<close>, whose
  four keys are the constants \<^verbatim>\<open>FD_KEY\<close>, \<^verbatim>\<open>FD_FILE_NAME\<close>, \<^verbatim>\<open>FD_IMAGE_NAME\<close> and
  \<^verbatim>\<open>FD_REMOVE_BUTTON\<close>.
\<close>

record file_setting =
  FD_KEY :: uuid
  FD_FILE_NAME :: setting
  FD_IMAGE_NAME :: setting
  FD_REMOVE_BUTTON :: button

record LoadSingleImage =
  dir_choice :: setting
  custom_directory :: setting
  file_settings :: "file_setting list"
  add_button :: button

subsection \<open>The list of file entries\<close>

definition add_file :: "nat \<times> LoadSingleImage \<Rightarrow> nat \<times> LoadSingleImage" where
  "add_file = (\<lambda>(clock, self).
     let (new_key, clock') = uuid1 clock;
         dictionary = \<lparr>
           FD_KEY = new_key,
           FD_FILE_NAME =
             Text ''What image file do you want to load? Include the extension like .tif'' ''None'',
           FD_IMAGE_NAME =
             FileImageNameProvider ''What do you want to call that image?'' ''OrigBlue'',
           FD_REMOVE_BUTTON =
             DoSomething ''Remove the above image and file'' ''Remove''
               (remove_file_callback new_key) \<rparr>
     in (clock', self\<lparr>file_settings := file_settings self @ [dictionary]\<rparr>))"

text \<open>
  \<^verbatim>\<open>create_settings\<close>. A \<^verbatim>\<open>cps.Choice\<close> built without a value starts at its first
  choice; the help text passed as \<^verbatim>\<open>doc\<close> is not kept.
\<close>

definition create_settings :: "nat \<Rightarrow> nat \<times> LoadSingleImage" where
  "create_settings clock =
     add_file (clock, \<lparr>
       dir_choice =
         Choice ''Which folder contains the image files?''
           [DIR_DEFAULT_IMAGE_FOLDER, DIR_DEFAULT_OUTPUT_FOLDER, DIR_CUSTOM_FOLDER]
           DIR_DEFAULT_IMAGE_FOLDER,
       custom_directory =
         Text ''What is the name of the folder containing the image files?'' ''.'',
       file_settings = [],
       add_button = DoSomething ''Add another file to be loaded'' ''Add'' add_file_callback \<rparr>)"

definition remove_file :: "uuid \<Rightarrow> LoadSingleImage \<Rightarrow> error + LoadSingleImage" where
  "remove_file key self =
     (case list_index (map FD_KEY (file_settings self)) key of
        Inl e \<Rightarrow> Inl e
      | Inr index \<Rightarrow>
          (case list_del (file_settings self) index of
             Inl e \<Rightarrow> Inl e
           | Inr remaining \<Rightarrow> Inr (self\<lparr>file_settings := remaining\<rparr>)))"

subsection \<open>Serialising and re-sizing the settings\<close>

fun settings_loop :: "file_setting list \<Rightarrow> setting list \<Rightarrow> setting list" where
  "settings_loop [] result = result"
| "settings_loop (file_setting # rest) result =
     settings_loop rest (result @ [FD_FILE_NAME file_setting, FD_IMAGE_NAME file_setting])"

definition settings :: "LoadSingleImage \<Rightarrow> setting list" where
  "settings self = settings_loop (file_settings self) [dir_choice self, custom_directory self]"

text \<open>
  \<^verbatim>\<open>prepare_settings\<close>: \<^verbatim>\<open>count = (len(setting_values)-2)/2\<close> is Python 2 integer
  division (towards minus infinity, as \<open>div\<close> on \<open>int\<close>), then one loop removes entries
  from the front and one loop appends new ones. \<^verbatim>\<open>self.file_settings[0]\<close> raises
  \<^verbatim>\<open>IndexError\<close> on an empty list.
\<close>

function remove_while :: "int \<Rightarrow> LoadSingleImage \<Rightarrow> error + LoadSingleImage" where
  "remove_while count self =
     (if int (length (file_settings self)) > count then
        (case file_settings self of
           [] \<Rightarrow> Inl IndexError
         | first # _ \<Rightarrow>
             (case remove_file (FD_KEY first) self of
                Inl e \<Rightarrow> Inl e
              | Inr self' \<Rightarrow> remove_while count self'))
      else Inr self)"
  by pat_completeness auto
termination
  by (relation "measure (\<lambda>(count, self). length (file_settings self))")
     (auto simp: remove_file_def list_del_def split: if_splits)

function add_while :: "int \<Rightarrow> nat \<times> LoadSingleImage \<Rightarrow> nat \<times> LoadSingleImage" where
  "add_while count (clock, self) =
     (if int (length (file_settings self)) < count
      then add_while count (add_file (clock, self))
      else (clock, self))"
  by pat_completeness auto
termination
  by (relation "measure (\<lambda>(count, clock, self). nat (count - int (length (file_settings self))))")
     (auto simp: add_file_def uuid1_def)

definition prepare_settings ::
  "string list \<Rightarrow> nat \<times> LoadSingleImage \<Rightarrow> error + nat \<times> LoadSingleImage" where
  "prepare_settings setting_values = (\<lambda>(clock, self).
     let count = (int (length setting_values) - 2) div 2 in
     case remove_while count self of
       Inl e \<Rightarrow> Inl e
     | Inr self' \<Rightarrow> Inr (add_while count (clock, self')))"

subsection \<open>The base directory\<close>

text \<open>
  \<^verbatim>\<open>self.dir_choice == DIR_...\<close> compares the value of the setting. When the value is none
  of the three choices no branch binds \<^verbatim>\<open>base_directory\<close> and the \<^verbatim>\<open>return\<close> raises
  \<^verbatim>\<open>UnboundLocalError\<close>. \<^verbatim>\<open>base_directory[:2]\<close> is \<open>take 2\<close>; \<^verbatim>\<open>os.altsep and ...\<close>
  is false when \<^verbatim>\<open>os.altsep\<close> is \<^verbatim>\<open>None\<close>.
\<close>

definition get_base_directory ::
  "os_module \<Rightarrow> preferences \<Rightarrow> LoadSingleImage \<Rightarrow> error + string" where
  "get_base_directory os cpprefs self =
     (if value_of (dir_choice self) = DIR_DEFAULT_IMAGE_FOLDER then
        Inr (default_image_directory cpprefs)
      else if value_of (dir_choice self) = DIR_DEFAULT_OUTPUT_FOLDER then
        Inr (default_output_directory cpprefs)
      else if value_of (dir_choice self) = DIR_CUSTOM_FOLDER then
        (let base_directory = value_of (custom_directory self) in
         if take 2 base_directory = [CHR ''.'', sep os] \<or>
            (case altsep os of
               None \<Rightarrow> False
             | Some a \<Rightarrow> take 2 base_directory = [CHR ''.'', a])
         then Inr (path_join os (default_image_directory cpprefs) (take 2 base_directory))
         else if take 2 base_directory = [CHR ''&'', sep os] \<or>
            (case altsep os of
               None \<Rightarrow> False
             | Some a \<Rightarrow> take 2 base_directory = [CHR ''&'', a])
         then Inr (path_join os (default_output_directory cpprefs) (take 2 base_directory))
         else Inr base_directory)
      else Inl UnboundLocalError)"

subsection \<open>The workspace\<close>

text \<open>
  What \<^verbatim>\<open>run\<close> touches of the workspace it is given: the measurements (metadata
  substitution and the number of the image set), the image set with its list of providers,
  the frame (only tested for truth) and the display, kept as the list of tables the module
  has asked to be drawn: title of the figure, its subplot grid, the cell and the rows.
  Whatever else an image set holds is the extension slot \<open>'i\<close> of the record.
\<close>

datatype provider = LoadImagesImageProvider string string string

record measurements =
  apply_metadata :: "string \<Rightarrow> string"
  image_set_number :: int

record image_set =
  providers :: "provider list"

datatype display_call = subplot_table string "nat \<times> nat" nat nat "(string \<times> string) list"

record 'i workspace =
  measurements :: measurements
  image_set :: "'i image_set_scheme"
  frame :: bool
  display :: "display_call list"

subsection \<open>Resolving the file names and registering the providers\<close>

fun get_file_names_loop :: "'i workspace \<Rightarrow> file_setting list \<Rightarrow> dict \<Rightarrow> dict" where
  "get_file_names_loop workspace [] result = result"
| "get_file_names_loop workspace (file_setting # rest) result =
     (let file_pattern = value_of (FD_FILE_NAME file_setting);
          file_name = apply_metadata (measurements workspace) file_pattern
      in get_file_names_loop workspace rest
           (AList.update (value_of (FD_IMAGE_NAME file_setting)) file_name result))"

definition get_file_names :: "LoadSingleImage \<Rightarrow> 'i workspace \<Rightarrow> dict" where
  "get_file_names self workspace = get_file_names_loop workspace (file_settings self) []"

fun run_loop ::
  "dict \<Rightarrow> string \<Rightarrow> string list \<Rightarrow> provider list \<times> (string \<times> string) list \<Rightarrow>
     error + provider list \<times> (string \<times> string) list" where
  "run_loop dict root [] acc = Inr acc"
| "run_loop dict root (image_name # rest) (registry, statistics) =
     (case dict_get dict image_name of
        Inl e \<Rightarrow> Inl e
      | Inr file_name \<Rightarrow>
          run_loop dict root rest
            (registry @ [LoadImagesImageProvider image_name root file_name],
             statistics @ [(image_name, file_name)]))"

definition run ::
  "(string \<Rightarrow> nat) \<Rightarrow> os_module \<Rightarrow> preferences \<Rightarrow> LoadSingleImage \<Rightarrow> 'i workspace \<Rightarrow>
     error + 'i workspace" where
  "run slot os cpprefs self workspace =
     (let dict = get_file_names self workspace in
      case get_base_directory os cpprefs self of
        Inl e \<Rightarrow> Inl e
      | Inr root \<Rightarrow>
          (case run_loop dict root (dict_keys slot dict)
                  (providers (image_set workspace), [(''Image name'', ''File'')]) of
             Inl e \<Rightarrow> Inl e
           | Inr (registry, statistics) \<Rightarrow>
               (let workspace' =
                      workspace\<lparr>image_set := (image_set workspace)\<lparr>providers := registry\<rparr>\<rparr>;
                    title = ''Load single image: image set # '' @
                            format_d (image_set_number (measurements workspace) + 1)
                in if frame workspace
                   then Inr (workspace'\<lparr>display := display workspace' @
                                [subplot_table title (1, 1) 0 0 statistics]\<rparr>)
                   else Inr workspace')))"

subsection \<open>Notions used to state the properties\<close>

text \<open>
  The three choices that \<^verbatim>\<open>create_settings\<close> gives \<^verbatim>\<open>dir_choice\<close>. They are the values
  for which \<^verbatim>\<open>get_base_directory\<close> binds its result; a module whose folder choice is one
  of them is a well-formed one.
\<close>

definition dir_choices :: "string list" where
  "dir_choices = [DIR_DEFAULT_IMAGE_FOLDER, DIR_DEFAULT_OUTPUT_FOLDER, DIR_CUSTOM_FOLDER]"

text \<open>
  Every key in the list of file entries was drawn from the generator before: the state in
  which \<^verbatim>\<open>uuid.uuid1()\<close> cannot return a key that is already in use.
\<close>

definition issued :: "nat \<times> LoadSingleImage \<Rightarrow> bool" where
  "issued = (\<lambda>(clock, self). list_all (\<lambda>d. FD_KEY d < clock) (file_settings self))"

text \<open>A path separator of the platform: \<^verbatim>\<open>os.sep\<close>, or \<^verbatim>\<open>os.altsep\<close> when there is one.\<close>

definition path_separator :: "os_module \<Rightarrow> char \<Rightarrow> bool" where
  "path_separator os c = (c = sep os \<or> altsep os = Some c)"

text \<open>The dictionary item that one file entry contributes under a workspace.\<close>

definition entry_of :: "'i workspace \<Rightarrow> file_setting \<Rightarrow> string \<times> string" where
  "entry_of workspace d =
     (value_of (FD_IMAGE_NAME d),
      apply_metadata (measurements workspace) (value_of (FD_FILE_NAME d)))"

text \<open>The name and the folder a provider was constructed with (its first two arguments).\<close>

fun provider_name :: "provider \<Rightarrow> string" where
  "provider_name (LoadImagesImageProvider name pathname filename) = name"

fun provider_pathname :: "provider \<Rightarrow> string" where
  "provider_pathname (LoadImagesImageProvider name pathname filename) = pathname"

subsection \<open>Concrete modules and workspaces\<close>

text \<open>
  A POSIX platform (\<^verbatim>\<open>posixpath.join\<close> for two arguments), two default folders, file
  entries as \<^verbatim>\<open>add_file\<close> makes them once the user has typed a file pattern and an image
  name, and workspaces of a cycle with an empty image set. \<open>plate\<close> and \<open>other_plate\<close>
  are two metadata substitutions that differ only outside the configured patterns;
  \<open>by_length\<close> is one possible order of dictionary keys.
\<close>

definition posix :: os_module where
  "posix = \<lparr>sep = CHR ''/'', altsep = None,
     path_join = (\<lambda>a b. if take 1 b = ''/'' then b
                          else if a = [] \<or> last a = CHR ''/'' then a @ b
                          else a @ ''/'' @ b)\<rparr>"

definition folders :: preferences where
  "folders = \<lparr>default_image_directory = ''/in'', default_output_directory = ''/out''\<rparr>"

definition file_entry :: "uuid \<Rightarrow> string \<Rightarrow> string \<Rightarrow> file_setting" where
  "file_entry key file_pattern image_name = \<lparr>
     FD_KEY = key,
     FD_FILE_NAME =
       Text ''What image file do you want to load? Include the extension like .tif'' file_pattern,
     FD_IMAGE_NAME = FileImageNameProvider ''What do you want to call that image?'' image_name,
     FD_REMOVE_BUTTON =
       DoSomething ''Remove the above image and file'' ''Remove'' (remove_file_callback key)\<rparr>"

definition configured :: "string \<Rightarrow> string \<Rightarrow> file_setting list \<Rightarrow> LoadSingleImage" where
  "configured choice folder entries = \<lparr>
     dir_choice = Choice ''Which folder contains the image files?'' dir_choices choice,
     custom_directory =
       Text ''What is the name of the folder containing the image files?'' folder,
     file_settings = entries,
     add_button = DoSomething ''Add another file to be loaded'' ''Add'' add_file_callback\<rparr>"

definition two_files :: LoadSingleImage where
  "two_files = configured DIR_DEFAULT_IMAGE_FOLDER ''.''
     [file_entry 0 ''illum_<plate>.tif'' ''Illum'', file_entry 1 ''mask.png'' ''Mask'']"

definition same_name :: LoadSingleImage where
  "same_name = configured DIR_DEFAULT_OUTPUT_FOLDER ''.''
     [file_entry 0 ''first.tif'' ''Illum'', file_entry 1 ''mask.png'' ''Mask'',
      file_entry 2 ''last.tif'' ''Illum'']"

definition custom_folder :: "string \<Rightarrow> LoadSingleImage" where
  "custom_folder folder = configured DIR_CUSTOM_FOLDER folder [file_entry 0 ''mask.png'' ''Mask'']"

definition three_files :: "nat \<times> LoadSingleImage" where
  "three_files = add_file (add_file (create_settings 0))"

definition cycle :: "int \<Rightarrow> (string \<Rightarrow> string) \<Rightarrow> unit workspace" where
  "cycle n substitute = \<lparr>
     measurements = \<lparr>apply_metadata = substitute, image_set_number = n\<rparr>,
     image_set = \<lparr>providers = []\<rparr>,
     frame = False,
     display = []\<rparr>"

definition plate :: "string \<Rightarrow> string \<Rightarrow> string" where
  "plate p file_pattern =
     (if file_pattern = ''illum_<plate>.tif'' then ''illum_'' @ p @ ''.tif''
      else if file_pattern = ''<plate>'' then p
      else file_pattern)"

definition other_plate :: "string \<Rightarrow> string" where
  "other_plate file_pattern = (if file_pattern = ''<plate>'' then ''P8'' else plate ''P7'' file_pattern)"

definition by_length :: "string \<Rightarrow> nat" where
  "by_length k = length k"

lemmas example_defs =
  two_files_def same_name_def configured_def file_entry_def cycle_def plate_def posix_def
  folders_def by_length_def dir_choices_def custom_folder_def other_plate_def
  DIR_DEFAULT_IMAGE_FOLDER_def DIR_DEFAULT_OUTPUT_FOLDER_def DIR_CUSTOM_FOLDER_def

lemmas run_defs =
  run_def get_file_names_def get_base_directory_def dict_keys_def dict_get_def

section \<open>Properties\<close>

subsection \<open>The order of dictionary keys\<close>

text \<open>
  Whatever order \<^verbatim>\<open>dict.keys()\<close> produces for a dictionary, some \<open>slot\<close> gives it, so a
  statement proved for every \<open>slot\<close> covers every order the interpreter may choose.
\<close>

lemma position_nth:
  "distinct xs \<Longrightarrow> i < length xs \<Longrightarrow> length (takeWhile (\<lambda>x. x \<noteq> xs ! i) xs) = i"
proof -
  assume d: "distinct xs" and i: "i < length xs"
  have "takeWhile (\<lambda>x. x \<noteq> xs ! i) xs = take i xs"
    using d i by (intro takeWhile_eq_take_P_nth) (auto simp: nth_eq_iff_index_eq)
  with i show ?thesis by simp
qed

lemma dict_keys_any_order:
  assumes "distinct names" and "set names = fst ` set d" and "distinct (map fst d)"
  shows "\<exists>slot. dict_keys slot d = names"
proof
  let ?slot = "\<lambda>k. length (takeWhile (\<lambda>x. x \<noteq> k) names)"
  let ?sorted = "sort_key ?slot (map fst d)"
  have pos: "map ?slot names = [0..<length names]"
    using assms(1) by (intro nth_equalityI) (simp_all add: position_nth)
  have inj: "inj_on ?slot (set names)"
  proof (rule inj_onI)
    fix a b assume "a \<in> set names" "b \<in> set names" and eq: "?slot a = ?slot b"
    then obtain i j where "i < length names" "names ! i = a" "j < length names" "names ! j = b"
      by (auto simp: in_set_conv_nth)
    with assms(1) eq show "a = b" using position_nth [of names] by auto
  qed
  have same: "set ?sorted = set names" using assms(2) by simp
  have "distinct ?sorted" using assms(3) by simp
  with inj same have "distinct (map ?slot ?sorted)" by (simp add: distinct_map)
  moreover have "sorted (map ?slot ?sorted)" by (rule sorted_sort_key)
  moreover have "sorted (map ?slot names)" "distinct (map ?slot names)"
    by (simp_all only: pos sorted_upt distinct_upt)
  moreover have "set (map ?slot ?sorted) = set (map ?slot names)"
    using same by simp
  ultimately have "map ?slot ?sorted = map ?slot names"
    by (intro sorted_distinct_set_unique)
  moreover from inj same have "inj_on ?slot (set ?sorted \<union> set names)" by simp
  ultimately have "?sorted = names" by (simp only: inj_on_map_eq_map)
  then show "dict_keys ?slot d = names" by (simp add: dict_keys_def)
qed

subsection \<open>Serialised settings\<close>

lemma settings_loop_append:
  "settings_loop entries result =
     result @ concat (map (\<lambda>d. [FD_FILE_NAME d, FD_IMAGE_NAME d]) entries)"
  by (induction entries arbitrary: result) simp_all

lemma length_concat_pairs:
  "length (concat (map (\<lambda>d. [f d, g d]) xs)) = 2 * length xs"
  by (induction xs) simp_all

text \<open>
  \<^bold>\<open>C7.\<close> The settings are serialised as the directory choice, then the custom directory,
  then one (file name, image name) pair per file entry in list order; the list therefore has
  \<open>2 + 2 * n\<close> elements for \<open>n\<close> file entries.
\<close>

theorem settings_layout:
  "settings self =
     dir_choice self # custom_directory self #
       concat (map (\<lambda>d. [FD_FILE_NAME d, FD_IMAGE_NAME d]) (file_settings self)) \<and>
   length (settings self) = 2 + 2 * length (file_settings self)"
  by (simp add: settings_def settings_loop_append length_concat_pairs)

subsection \<open>Adding and removing file entries\<close>

lemma list_index_first:
  "list_index (map f xs) k = Inr i \<longleftrightarrow>
     (i < length xs \<and> f (xs ! i) = k \<and> (\<forall>j<i. f (xs ! j) \<noteq> k))"
proof (induction xs arbitrary: i)
  case Nil
  then show ?case by simp
next
  case (Cons x xs)
  show ?case
  proof (cases "f x = k")
    case True
    then show ?thesis by auto
  next
    case False
    show ?thesis
    proof (cases i)
      case 0
      with False show ?thesis by (auto split: sum.splits)
    next
      case (Suc n)
      have "(\<forall>j<Suc n. f ((x # xs) ! j) \<noteq> k) \<longleftrightarrow> (\<forall>j<n. f (xs ! j) \<noteq> k)"
        using False by (auto simp: less_Suc_eq_0_disj)
      with Suc False Cons.IH [of n] show ?thesis
        by (auto split: sum.splits)
    qed
  qed
qed

lemma list_index_absent:
  "list_index xs k = Inl e \<longleftrightarrow> (k \<notin> set xs \<and> e = ValueError)"
  by (induction xs) (auto split: sum.splits)

lemma remove_unique:
  "length (filter (\<lambda>d. f d = k) xs) = 1 \<Longrightarrow>
     \<exists>i. list_index (map f xs) k = Inr i \<and> i < length xs \<and>
         take i xs @ drop (Suc i) xs = filter (\<lambda>d. f d \<noteq> k) xs"
proof (induction xs)
  case Nil
  then show ?case by simp
next
  case (Cons x xs)
  show ?case
  proof (cases "f x = k")
    case True
    with Cons.prems have "filter (\<lambda>d. f d = k) xs = []" by simp
    then have "filter (\<lambda>d. f d \<noteq> k) xs = xs"
      by (induction xs) (auto split: if_splits)
    with True show ?thesis by simp
  next
    case False
    with Cons.prems have "length (filter (\<lambda>d. f d = k) xs) = 1" by simp
    from Cons.IH [OF this] obtain i where
      "list_index (map f xs) k = Inr i" "i < length xs"
      "take i xs @ drop (Suc i) xs = filter (\<lambda>d. f d \<noteq> k) xs" by blast
    with False show ?thesis by simp
  qed
qed

lemma issued_create_settings: "issued (create_settings clock)"
  by (simp add: issued_def create_settings_def add_file_def uuid1_def)

lemma issued_remove_file:
  "issued (clock, self) \<Longrightarrow> remove_file key self = Inr self' \<Longrightarrow> issued (clock, self')"
proof -
  assume inv: "issued (clock, self)" and rm: "remove_file key self = Inr self'"
  from rm obtain i where "file_settings self' =
      take i (file_settings self) @ drop (Suc i) (file_settings self)"
    by (auto simp: remove_file_def list_del_def split: sum.splits if_splits)
  then have "set (file_settings self') \<subseteq> set (file_settings self)"
    using set_take_subset [of i "file_settings self"]
          set_drop_subset [of "Suc i" "file_settings self"] by auto
  with inv show ?thesis by (auto simp: issued_def list_all_iff)
qed

text \<open>
  \<^bold>\<open>C5.\<close> \<^verbatim>\<open>add_file\<close> appends exactly one entry at the end of the list and leaves the
  existing entries as they are; the key of the new entry is the one drawn from the generator,
  which is not the key of any existing entry when all of those were drawn before. For a key
  that is the \<^verbatim>\<open>FD_KEY\<close> of exactly one entry, \<^verbatim>\<open>remove_file\<close> returns normally and leaves
  the list without that entry, the other entries in their order.
\<close>

theorem add_remove_file:
  "(\<exists>entry. add_file (clock, self) =
       (Suc clock, self\<lparr>file_settings := file_settings self @ [entry]\<rparr>) \<and>
       FD_KEY entry = clock) \<and>
   (issued (clock, self) \<longrightarrow>
       clock \<notin> set (map FD_KEY (file_settings self)) \<and> issued (add_file (clock, self))) \<and>
   (length (filter (\<lambda>d. FD_KEY d = key) (file_settings self)) = 1 \<longrightarrow>
       remove_file key self =
         Inr (self\<lparr>file_settings := filter (\<lambda>d. FD_KEY d \<noteq> key) (file_settings self)\<rparr>))"
proof (intro conjI impI)
  show "\<exists>entry. add_file (clock, self) =
       (Suc clock, self\<lparr>file_settings := file_settings self @ [entry]\<rparr>) \<and>
       FD_KEY entry = clock"
    by (simp add: add_file_def uuid1_def) (metis file_setting.select_convs(1))
next
  assume "issued (clock, self)"
  then show "clock \<notin> set (map FD_KEY (file_settings self))"
    by (auto simp: issued_def list_all_iff)
next
  assume "issued (clock, self)"
  then show "issued (add_file (clock, self))"
    by (auto simp: issued_def list_all_iff add_file_def uuid1_def)
next
  assume "length (filter (\<lambda>d. FD_KEY d = key) (file_settings self)) = 1"
  from remove_unique [OF this] show "remove_file key self =
         Inr (self\<lparr>file_settings := filter (\<lambda>d. FD_KEY d \<noteq> key) (file_settings self)\<rparr>)"
    by (auto simp: remove_file_def list_del_def)
qed

theorem add_remove_file_witness:
  "issued three_files \<and>
   3 \<notin> set (map FD_KEY (file_settings (snd three_files))) \<and>
   issued (add_file three_files) \<and>
   map FD_KEY (file_settings (snd three_files)) = [0, 1, 2] \<and>
   (\<exists>self'. remove_file 1 (snd three_files) = Inr self' \<and>
            map FD_KEY (file_settings self') = [0, 2])"
proof -
  have eq: "three_files = (3, snd three_files)"
    by (simp add: three_files_def create_settings_def add_file_def uuid1_def)
  have keys: "map FD_KEY (file_settings (snd three_files)) = [0, 1, 2]"
    by (simp add: three_files_def create_settings_def add_file_def uuid1_def)
  have iss: "issued (3, snd three_files)"
    by (simp add: issued_def three_files_def create_settings_def add_file_def uuid1_def)
  have one: "length (filter (\<lambda>d. FD_KEY d = 1) (file_settings (snd three_files))) = 1"
    by (simp add: three_files_def create_settings_def add_file_def uuid1_def)
  have left: "map FD_KEY (filter (\<lambda>d. FD_KEY d \<noteq> 1) (file_settings (snd three_files))) = [0, 2]"
    by (simp add: three_files_def create_settings_def add_file_def uuid1_def)
  from add_remove_file [of 3 "snd three_files" 1] iss one
  have "3 \<notin> set (map FD_KEY (file_settings (snd three_files)))"
    "issued (add_file (3, snd three_files))"
    "remove_file 1 (snd three_files) =
       Inr ((snd three_files)\<lparr>file_settings :=
              filter (\<lambda>d. FD_KEY d \<noteq> 1) (file_settings (snd three_files))\<rparr>)"
    by blast+
  with iss keys left eq show ?thesis by (metis LoadSingleImage.select_convs(3) LoadSingleImage.surjective LoadSingleImage.update_convs(3))
qed

subsection \<open>Re-sizing the list from a list of setting values\<close>

lemma remove_while_drop:
  "0 \<le> count \<Longrightarrow>
     remove_while count self =
       Inr (self\<lparr>file_settings :=
              drop (length (file_settings self) - nat count) (file_settings self)\<rparr>)"
proof (induction count self rule: remove_while.induct)
  case (1 count self)
  show ?case
  proof (cases "int (length (file_settings self)) > count")
    case False
    then show ?thesis by (subst remove_while.simps) simp
  next
    case True
    with "1.prems" obtain first rest where fs: "file_settings self = first # rest"
      by (cases "file_settings self") auto
    have rm: "remove_file (FD_KEY first) self = Inr (self\<lparr>file_settings := rest\<rparr>)"
      by (simp add: remove_file_def list_del_def fs)
    have "Suc (length rest) - nat count = Suc (length rest - nat count)"
      using True "1.prems" fs by (simp add: Suc_diff_le)
    with "1.IH" [OF True fs rm "1.prems"] True fs rm show ?thesis
      by (subst remove_while.simps) simp
  qed
qed

lemma remove_while_negative:
  "count < 0 \<Longrightarrow> remove_while count self = Inl IndexError"
proof (induction count self rule: remove_while.induct)
  case (1 count self)
  show ?case
  proof (cases "file_settings self")
    case Nil
    with "1.prems" show ?thesis by (subst remove_while.simps) simp
  next
    case (Cons first rest)
    have rm: "remove_file (FD_KEY first) self = Inr (self\<lparr>file_settings := rest\<rparr>)"
      by (simp add: remove_file_def list_del_def Cons)
    have gt: "int (length (file_settings self)) > count" using "1.prems" by simp
    from "1.IH" [OF gt Cons rm "1.prems"] gt Cons rm show ?thesis
      by (subst remove_while.simps) simp
  qed
qed

lemma add_while_length:
  "length (file_settings (snd (add_while count (clock, self)))) =
     max (length (file_settings self)) (nat count)"
proof (induction count "(clock, self)" arbitrary: clock self rule: add_while.induct)
  case (1 count clock self)
  show ?case
  proof (cases "int (length (file_settings self)) < count")
    case False
    then show ?thesis by (subst add_while.simps) simp
  next
    case True
    obtain clock' self' where af: "add_file (clock, self) = (clock', self')"
      by (cases "add_file (clock, self)")
    then have len: "length (file_settings self') = Suc (length (file_settings self))"
      by (auto simp: add_file_def uuid1_def)
    from "1.hyps" [OF True af] af len True show ?thesis
      by (subst add_while.simps) (simp add: max_def)
  qed
qed

lemma prepare_settings_short:
  "length setting_values < 2 \<Longrightarrow>
     prepare_settings setting_values (clock, self) = Inl IndexError"
proof -
  assume "length setting_values < 2"
  then have "(int (length setting_values) - 2) div 2 < 0" by simp
  then have "remove_while ((int (length setting_values) - 2) div 2) self = Inl IndexError"
    by (rule remove_while_negative)
  then show ?thesis
    by (simp only: prepare_settings_def Let_def prod.case sum.case)
qed

text \<open>
  \<^bold>\<open>C9.\<close> For a list of setting values of even length at least 2, \<^verbatim>\<open>prepare_settings\<close>
  returns normally, the module then has \<open>(length - 2) / 2\<close> file entries, and
  \<^verbatim>\<open>settings()\<close> gives a list as long as the list of values.
\<close>

theorem prepare_settings_roundtrip:
  assumes "even (length setting_values)" and "2 \<le> length setting_values"
  shows "\<exists>clock' self'.
           prepare_settings setting_values (clock, self) = Inr (clock', self') \<and>
           int (length (file_settings self')) = (int (length setting_values) - 2) div 2 \<and>
           length (settings self') = length setting_values"
proof -
  define count where "count = (int (length setting_values) - 2) div 2"
  from assms have nn: "0 \<le> count" by (simp add: count_def)
  define trimmed where "trimmed =
    self\<lparr>file_settings := drop (length (file_settings self) - nat count) (file_settings self)\<rparr>"
  have rw: "remove_while count self = Inr trimmed"
    unfolding trimmed_def by (rule remove_while_drop [OF nn])
  have short: "length (file_settings trimmed) \<le> nat count"
    by (simp add: trimmed_def)
  obtain clock' self' where aw: "add_while count (clock, trimmed) = (clock', self')"
    by (cases "add_while count (clock, trimmed)")
  have "length (file_settings self') = max (length (file_settings trimmed)) (nat count)"
    using add_while_length [of count clock trimmed] aw by simp
  with short have len: "length (file_settings self') = nat count" by simp
  have ps: "prepare_settings setting_values (clock, self) = Inr (clock', self')"
    using rw aw by (simp add: prepare_settings_def count_def [symmetric])
  have l1: "int (length (file_settings self')) = (int (length setting_values) - 2) div 2"
    using len nn by (simp add: count_def)
  from assms obtain k where k: "length setting_values = 2 * k" "1 \<le> k"
    by (auto elim: evenE)
  then have "count = int k - 1" by (simp add: count_def)
  with k have "2 + 2 * nat count = length setting_values" by simp
  with len have l2: "length (settings self') = length setting_values"
    by (simp add: settings_def settings_loop_append length_concat_pairs)
  from ps l1 l2 show ?thesis by blast
qed

theorem prepare_settings_roundtrip_witness:
  "even (length [''Default input folder'', ''.'', ''a.tif'', ''A'', ''b.tif'', ''B'']) \<and>
   2 \<le> length [''Default input folder'', ''.'', ''a.tif'', ''A'', ''b.tif'', ''B''] \<and>
   (\<exists>clock' self'.
      prepare_settings [''Default input folder'', ''.'', ''a.tif'', ''A'', ''b.tif'', ''B'']
        (create_settings 0) = Inr (clock', self') \<and>
      length (file_settings self') = 2 \<and> length (settings self') = 6)"
proof -
  let ?saved = "[''Default input folder'', ''.'', ''a.tif'', ''A'', ''b.tif'', ''B'']"
  have h: "even (length ?saved)" "2 \<le> length ?saved" by simp_all
  from prepare_settings_roundtrip [OF h, of "fst (create_settings 0)" "snd (create_settings 0)"]
  show ?thesis using h by auto
qed

subsection \<open>The base directory\<close>

lemma dir_constants_distinct:
  "DIR_CUSTOM_FOLDER \<noteq> DIR_DEFAULT_IMAGE_FOLDER"
  "DIR_CUSTOM_FOLDER \<noteq> DIR_DEFAULT_OUTPUT_FOLDER"
  "DIR_DEFAULT_IMAGE_FOLDER \<noteq> DIR_DEFAULT_OUTPUT_FOLDER"
  by (simp_all add: DIR_CUSTOM_FOLDER_def DIR_DEFAULT_IMAGE_FOLDER_def
        DIR_DEFAULT_OUTPUT_FOLDER_def)

lemma get_base_directory_total:
  "value_of (dir_choice self) \<in> set dir_choices \<Longrightarrow>
     \<exists>root. get_base_directory os cpprefs self = Inr root"
  by (auto simp: get_base_directory_def dir_choices_def Let_def)

lemma get_base_directory_raises:
  "get_base_directory os cpprefs self = Inl e \<longleftrightarrow>
     (e = UnboundLocalError \<and> value_of (dir_choice self) \<notin> set dir_choices)"
  by (auto simp: get_base_directory_def dir_choices_def Let_def)

text \<open>
  \<^bold>\<open>C10.\<close> With the folder choice Custom: when the custom directory begins with \<open>.\<close>
  followed by a path separator, the result is the default input directory joined with those
  two characters alone, whatever follows them; likewise with \<open>&\<close> and the default output
  directory; every other custom directory is returned as it is.
\<close>

theorem get_base_directory_custom:
  assumes "value_of (dir_choice self) = DIR_CUSTOM_FOLDER"
  shows "(path_separator os s \<and> value_of (custom_directory self) = CHR ''.'' # s # rest \<longrightarrow>
            get_base_directory os cpprefs self =
              Inr (path_join os (default_image_directory cpprefs) [CHR ''.'', s])) \<and>
         (path_separator os s \<and> value_of (custom_directory self) = CHR ''&'' # s # rest \<longrightarrow>
            get_base_directory os cpprefs self =
              Inr (path_join os (default_output_directory cpprefs) [CHR ''&'', s])) \<and>
         ((\<forall>c t more. value_of (custom_directory self) = c # t # more \<longrightarrow>
              \<not> ((c = CHR ''.'' \<or> c = CHR ''&'') \<and> path_separator os t)) \<longrightarrow>
            get_base_directory os cpprefs self = Inr (value_of (custom_directory self)))"
proof (intro conjI impI)
  assume "path_separator os s \<and> value_of (custom_directory self) = CHR ''.'' # s # rest"
  with assms show "get_base_directory os cpprefs self =
              Inr (path_join os (default_image_directory cpprefs) [CHR ''.'', s])"
    by (auto simp: get_base_directory_def path_separator_def dir_constants_distinct
             Let_def numeral_2_eq_2 split: option.splits)
next
  assume "path_separator os s \<and> value_of (custom_directory self) = CHR ''&'' # s # rest"
  with assms show "get_base_directory os cpprefs self =
              Inr (path_join os (default_output_directory cpprefs) [CHR ''&'', s])"
    by (auto simp: get_base_directory_def path_separator_def dir_constants_distinct
             Let_def numeral_2_eq_2 split: option.splits)
next
  assume other: "\<forall>c t more. value_of (custom_directory self) = c # t # more \<longrightarrow>
              \<not> ((c = CHR ''.'' \<or> c = CHR ''&'') \<and> path_separator os t)"
  have two: "take 2 v = [c, t] \<Longrightarrow> \<exists>more. v = c # t # more" for v :: string and c t
    by (cases v; cases "tl v") auto
  have "take 2 (value_of (custom_directory self)) \<noteq> [c, t]"
    if "c = CHR ''.'' \<or> c = CHR ''&''" and "path_separator os t" for c t
    using other that two by blast
  then have
    "take 2 (value_of (custom_directory self)) \<noteq> [CHR ''.'', sep os]"
    "take 2 (value_of (custom_directory self)) \<noteq> [CHR ''&'', sep os]"
    "altsep os = Some a \<Longrightarrow> take 2 (value_of (custom_directory self)) \<noteq> [CHR ''.'', a]"
    "altsep os = Some a \<Longrightarrow> take 2 (value_of (custom_directory self)) \<noteq> [CHR ''&'', a]" for a
    by (simp_all add: path_separator_def)
  with assms show "get_base_directory os cpprefs self = Inr (value_of (custom_directory self))"
    by (simp add: get_base_directory_def dir_constants_distinct Let_def split: option.splits)
qed

theorem get_base_directory_custom_witness:
  "value_of (dir_choice (custom_folder ''./sub/dir'')) = DIR_CUSTOM_FOLDER \<and>
   path_separator posix CHR ''/'' \<and>
   get_base_directory posix folders (custom_folder ''./sub/dir'') = Inr ''/in/./'' \<and>
   get_base_directory posix folders (custom_folder ''&/sub/dir'') = Inr ''/out/&/'' \<and>
   get_base_directory posix folders (custom_folder ''/data/illum'') = Inr ''/data/illum''"
proof -
  have c: "value_of (dir_choice (custom_folder f)) = DIR_CUSTOM_FOLDER" for f
    by (simp add: custom_folder_def configured_def)
  have v: "value_of (custom_directory (custom_folder f)) = f" for f
    by (simp add: custom_folder_def configured_def)
  have s: "path_separator posix CHR ''/''" by (simp add: path_separator_def posix_def)
  have other: "\<forall>c t more. ''/data/illum'' = c # t # more \<longrightarrow>
              \<not> ((c = CHR ''.'' \<or> c = CHR ''&'') \<and> path_separator posix t)"
    by simp
  from get_base_directory_custom [OF c, of posix "CHR ''/''" "''./sub/dir''" "''sub/dir''" folders]
  have 1: "get_base_directory posix folders (custom_folder ''./sub/dir'') = Inr ''/in/./''"
    using s by (simp add: v posix_def folders_def)
  from get_base_directory_custom [OF c, of posix "CHR ''/''" "''&/sub/dir''" "''sub/dir''" folders]
  have 2: "get_base_directory posix folders (custom_folder ''&/sub/dir'') = Inr ''/out/&/''"
    using s by (simp add: v posix_def folders_def)
  from get_base_directory_custom [OF c, of posix "CHR ''/''" "''/data/illum''" "[]" folders]
  have 3: "get_base_directory posix folders (custom_folder ''/data/illum'') =
      Inr ''/data/illum''"
    using other by (simp add: v)
  from c s 1 2 3 show ?thesis by blast
qed

subsection \<open>The dictionary of file names\<close>

lemma get_file_names_loop_fold:
  "get_file_names_loop workspace entries result =
     fold (\<lambda>d. AList.update (fst (entry_of workspace d)) (snd (entry_of workspace d)))
       entries result"
  by (induction entries arbitrary: result) (simp_all add: entry_of_def)

lemma get_file_names_loop_keys:
  "fst ` set (get_file_names_loop workspace entries result) =
     fst ` set result \<union> (\<lambda>d. value_of (FD_IMAGE_NAME d)) ` set entries"
  by (induction entries arbitrary: result) (auto simp: dom_update)

lemma get_file_names_loop_distinct:
  "distinct (map fst result) \<Longrightarrow>
     distinct (map fst (get_file_names_loop workspace entries result))"
  by (induction entries arbitrary: result) (simp_all add: distinct_update)

lemma get_file_names_loop_map_of:
  "map_of (get_file_names_loop workspace entries result) =
     map_of result ++ map_of (rev (map (entry_of workspace) entries))"
proof (induction entries arbitrary: result)
  case Nil
  then show ?case by simp
next
  case (Cons d entries)
  show ?case
    by (simp add: Cons.IH update_conv' entry_of_def map_add_def fun_eq_iff
             split: option.splits)
qed

lemma map_of_rev_last:
  assumes "filter (\<lambda>p. fst p = k) ps \<noteq> []"
  shows "map_of (rev ps) k = Some (snd (last (filter (\<lambda>p. fst p = k) ps)))"
  using assms
proof (induction ps rule: rev_induct)
  case Nil
  then show ?case by simp
next
  case (snoc p ps)
  then show ?case by (cases p) auto
qed

lemma get_file_names_distinct: "distinct (map fst (get_file_names self workspace))"
  by (simp add: get_file_names_def get_file_names_loop_distinct)

lemma get_file_names_keys:
  "fst ` set (get_file_names self workspace) =
     (\<lambda>d. value_of (FD_IMAGE_NAME d)) ` set (file_settings self)"
  by (simp add: get_file_names_def get_file_names_loop_keys)

lemma get_file_names_entry:
  assumes "(name, file_name) \<in> set (get_file_names self workspace)"
  shows "\<exists>d\<in>set (file_settings self). entry_of workspace d = (name, file_name)"
proof -
  from assms have "map_of (get_file_names self workspace) name = Some file_name"
    by (simp add: get_file_names_distinct)
  then have "map_of (rev (map (entry_of workspace) (file_settings self))) name = Some file_name"
    by (simp add: get_file_names_def get_file_names_loop_map_of)
  then have "(name, file_name) \<in> set (rev (map (entry_of workspace) (file_settings self)))"
    by (rule map_of_SomeD)
  then show ?thesis by auto
qed




subsection \<open>Running the module\<close>

lemma run_loop_eq:
  "set names \<subseteq> fst ` set dict \<Longrightarrow> distinct (map fst dict) \<Longrightarrow>
     \<exists>items. run_loop dict root names (registry, statistics) =
       Inr (registry @ map (\<lambda>(n, f). LoadImagesImageProvider n root f) items,
            statistics @ items) \<and>
       map fst items = names \<and> set items \<subseteq> set dict"
proof (induction names arbitrary: registry statistics)
  case Nil
  then show ?case by simp
next
  case (Cons name names)
  from Cons.prems obtain file_name where mem: "(name, file_name) \<in> set dict" by auto
  with Cons.prems have get: "dict_get dict name = Inr file_name"
    by (simp add: dict_get_def)
  from Cons.prems have "set names \<subseteq> fst ` set dict" by simp
  from Cons.IH [OF this Cons.prems(2),
      of "registry @ [LoadImagesImageProvider name root file_name]"
         "statistics @ [(name, file_name)]"]
  obtain items where
    "run_loop dict root names
       (registry @ [LoadImagesImageProvider name root file_name],
        statistics @ [(name, file_name)]) =
     Inr ((registry @ [LoadImagesImageProvider name root file_name]) @
            map (\<lambda>(n, f). LoadImagesImageProvider n root f) items,
          (statistics @ [(name, file_name)]) @ items)"
    "map fst items = names" "set items \<subseteq> set dict" by blast
  with get mem show ?case
    by (intro exI [of _ "(name, file_name) # items"]) simp
qed

lemma items_all:
  assumes "distinct (map fst dict)" and "set items \<subseteq> set dict"
    and "set (map fst items) = fst ` set dict"
  shows "set items = set dict"
proof
  show "set items \<subseteq> set dict" by fact
  show "set dict \<subseteq> set items"
  proof
    fix p assume p: "p \<in> set dict"
    then have "fst p \<in> fst ` set items" using assms(3) by auto
    then obtain q where q: "q \<in> set items" "fst q = fst p" by auto
    with assms(2) have "q \<in> set dict" by auto
    with assms(1) p q(2) have "q = p"
      by (metis eq_key_imp_eq_value prod.collapse)
    with q show "p \<in> set items" by simp
  qed
qed

lemma run_result:
  assumes "get_base_directory os cpprefs self = Inr root"
  shows "\<exists>items.
     run slot os cpprefs self workspace =
       Inr ((workspace\<lparr>image_set := (image_set workspace)\<lparr>providers :=
               providers (image_set workspace) @
                 map (\<lambda>(n, f). LoadImagesImageProvider n root f) items\<rparr>\<rparr>)
             \<lparr>display :=
               (if frame workspace
                then display workspace @
                  [subplot_table
                     (''Load single image: image set # '' @
                        format_d (image_set_number (measurements workspace) + 1))
                     (1, 1) 0 0 ((''Image name'', ''File'') # items)]
                else display workspace)\<rparr>) \<and>
     map fst items = dict_keys slot (get_file_names self workspace) \<and>
     set items = set (get_file_names self workspace) \<and>
     length items = length (get_file_names self workspace)"
proof -
  let ?dict = "get_file_names self workspace"
  have keys: "set (dict_keys slot ?dict) \<subseteq> fst ` set ?dict"
    by (simp add: dict_keys_def)
  from run_loop_eq [OF keys get_file_names_distinct,
      of root "providers (image_set workspace)" "[(''Image name'', ''File'')]"]
  obtain items where loop:
    "run_loop ?dict root (dict_keys slot ?dict)
       (providers (image_set workspace), [(''Image name'', ''File'')]) =
     Inr (providers (image_set workspace) @
            map (\<lambda>(n, f). LoadImagesImageProvider n root f) items,
          [(''Image name'', ''File'')] @ items)"
    and names: "map fst items = dict_keys slot ?dict"
    and sub: "set items \<subseteq> set ?dict" by blast
  have "set (map fst items) = fst ` set ?dict"
    by (simp add: names dict_keys_def)
  with sub have all: "set items = set ?dict"
    by (intro items_all get_file_names_distinct)
  have "length items = length (map fst items)" by simp
  also have "\<dots> = length ?dict" by (simp add: names dict_keys_def)
  finally have len: "length items = length ?dict" .
  have "run slot os cpprefs self workspace =
       Inr ((workspace\<lparr>image_set := (image_set workspace)\<lparr>providers :=
               providers (image_set workspace) @
                 map (\<lambda>(n, f). LoadImagesImageProvider n root f) items\<rparr>\<rparr>)
             \<lparr>display :=
               (if frame workspace
                then display workspace @
                  [subplot_table
                     (''Load single image: image set # '' @
                        format_d (image_set_number (measurements workspace) + 1))
                     (1, 1) 0 0 ((''Image name'', ''File'') # items)]
                else display workspace)\<rparr>)"
    using assms loop by (simp add: run_def Let_def)
  with names all len show ?thesis by blast
qed

lemma run_raises:
  "run slot os cpprefs self workspace = Inl e \<longleftrightarrow>
     (e = UnboundLocalError \<and> value_of (dir_choice self) \<notin> set dir_choices)"
proof (cases "get_base_directory os cpprefs self")
  case (Inl e')
  then have "run slot os cpprefs self workspace = Inl e'"
    by (simp add: run_def Let_def)
  with Inl show ?thesis by (auto simp: get_base_directory_raises)
next
  case (Inr root)
  from run_result [OF this, of slot workspace] Inr show ?thesis
    using get_base_directory_raises [of os cpprefs self UnboundLocalError] by auto
qed

text \<open>
  \<^bold>\<open>C1.\<close> For a module whose folder choice is one of its three choices and for every
  workspace, \<^verbatim>\<open>run\<close> returns normally and appends one provider per item of the dictionary
  of \<^verbatim>\<open>get_file_names\<close>: the provider is built from the image name, the base directory of
  the module and the file name of the item. The keys of the dictionary are the configured
  image names and each file name is the metadata substitution of the workspace applied to
  the file pattern of an entry with that image name.
\<close>

theorem run_registers_providers:
  assumes "value_of (dir_choice self) \<in> set dir_choices"
  shows "\<exists>root new workspace'.
     get_base_directory os cpprefs self = Inr root \<and>
     run slot os cpprefs self workspace = Inr workspace' \<and>
     providers (image_set workspace') = providers (image_set workspace) @ new \<and>
     length new = length (get_file_names self workspace) \<and>
     set new = (\<lambda>(image_name, file_name). LoadImagesImageProvider image_name root file_name) `
                 set (get_file_names self workspace) \<and>
     fst ` set (get_file_names self workspace) =
       (\<lambda>d. value_of (FD_IMAGE_NAME d)) ` set (file_settings self) \<and>
     (\<forall>(image_name, file_name) \<in> set (get_file_names self workspace).
        \<exists>d\<in>set (file_settings self).
          image_name = value_of (FD_IMAGE_NAME d) \<and>
          file_name = apply_metadata (measurements workspace) (value_of (FD_FILE_NAME d)))"
proof -
  from get_base_directory_total [OF assms] obtain root where
    root: "get_base_directory os cpprefs self = Inr root" by blast
  from run_result [OF root, of slot workspace] obtain items workspace' where
    run: "run slot os cpprefs self workspace = Inr workspace'" and
    reg: "providers (image_set workspace') = providers (image_set workspace) @
            map (\<lambda>(n, f). LoadImagesImageProvider n root f) items" and
    items: "set items = set (get_file_names self workspace)"
           "length items = length (get_file_names self workspace)"
    by auto
  have entries: "\<forall>(image_name, file_name) \<in> set (get_file_names self workspace).
        \<exists>d\<in>set (file_settings self).
          image_name = value_of (FD_IMAGE_NAME d) \<and>
          file_name = apply_metadata (measurements workspace) (value_of (FD_FILE_NAME d))"
    using get_file_names_entry [of _ _ self workspace] by (fastforce simp: entry_of_def)
  let ?new = "map (\<lambda>(n, f). LoadImagesImageProvider n root f) items"
  have "length ?new = length (get_file_names self workspace)" using items by simp
  moreover have "set ?new =
      (\<lambda>(image_name, file_name). LoadImagesImageProvider image_name root file_name) `
                 set (get_file_names self workspace)" using items by simp
  ultimately show ?thesis
    using root run reg entries get_file_names_keys [of self workspace] by blast
qed

theorem run_registers_providers_witness:
  "value_of (dir_choice two_files) \<in> set dir_choices \<and>
   (\<exists>new workspace'.
      get_base_directory posix folders two_files = Inr ''/in'' \<and>
      run by_length posix folders two_files (cycle 0 (plate ''P7'')) = Inr workspace' \<and>
      providers (image_set workspace') = new \<and>
      set new = {LoadImagesImageProvider ''Illum'' ''/in'' ''illum_P7.tif'',
                 LoadImagesImageProvider ''Mask'' ''/in'' ''mask.png''})"
proof -
  have valid: "value_of (dir_choice two_files) \<in> set dir_choices"
    by (simp add: example_defs)
  have dict: "get_file_names two_files (cycle 0 (plate ''P7'')) =
      [(''Illum'', ''illum_P7.tif''), (''Mask'', ''mask.png'')]"
    by (simp add: get_file_names_def example_defs)
  have root: "get_base_directory posix folders two_files = Inr ''/in''"
    by (simp add: get_base_directory_def example_defs)
  from run_registers_providers [OF valid, of posix folders by_length "cycle 0 (plate ''P7'')"]
  obtain r new workspace' where
    r: "get_base_directory posix folders two_files = Inr r" and
    ran: "run by_length posix folders two_files (cycle 0 (plate ''P7'')) = Inr workspace'" and
    reg: "providers (image_set workspace') =
            providers (image_set (cycle 0 (plate ''P7''))) @ new" and
    new: "set new =
            (\<lambda>(image_name, file_name). LoadImagesImageProvider image_name r file_name) `
              set (get_file_names two_files (cycle 0 (plate ''P7'')))"
    by (elim exE conjE) (rule that, assumption+)
  from r root have "r = ''/in''" by simp
  with new have "set new = {LoadImagesImageProvider ''Illum'' ''/in'' ''illum_P7.tif'',
                 LoadImagesImageProvider ''Mask'' ''/in'' ''mask.png''}"
    by (simp only: dict list.set image_insert image_empty prod.case)
  moreover from reg have "providers (image_set workspace') = new" by (simp add: cycle_def)
  ultimately show ?thesis using valid root ran by blast
qed

text \<open>
  \<^bold>\<open>C2.\<close> \<^verbatim>\<open>run\<close> never reads the number of the cycle when it registers providers. On the
  second cycle (\<^verbatim>\<open>image_set_number\<close> 1) of a module with two file entries, with an image
  set that holds no provider yet, it registers two providers again.
\<close>

theorem run_on_second_cycle:
  "image_set_number (measurements (cycle 1 (plate ''P7''))) = 1 \<and>
   providers (image_set (cycle 1 (plate ''P7''))) = [] \<and>
   run by_length posix folders two_files (cycle 1 (plate ''P7'')) =
     Inr ((cycle 1 (plate ''P7''))\<lparr>image_set := \<lparr>providers =
            [LoadImagesImageProvider ''Mask'' ''/in'' ''mask.png'',
             LoadImagesImageProvider ''Illum'' ''/in'' ''illum_P7.tif'']\<rparr>\<rparr>)"
  by (simp add: run_defs example_defs)

text \<open>
  \<^bold>\<open>C3.\<close> The folder is a setting of the module, not of a file entry: the base directory
  does not depend on the list of file entries, and every provider that \<^verbatim>\<open>run\<close> registers
  is given that one base directory.
\<close>

theorem one_folder_for_all_files:
  "get_base_directory os cpprefs (self\<lparr>file_settings := entries\<rparr>) =
     get_base_directory os cpprefs self \<and>
   (run slot os cpprefs self workspace = Inr workspace' \<longrightarrow>
      (\<exists>root. get_base_directory os cpprefs self = Inr root \<and>
         map provider_pathname
           (drop (length (providers (image_set workspace))) (providers (image_set workspace'))) =
         replicate (length (get_file_names self workspace)) root))"
proof (intro conjI impI)
  show "get_base_directory os cpprefs (self\<lparr>file_settings := entries\<rparr>) =
     get_base_directory os cpprefs self"
    by (simp add: get_base_directory_def)
next
  assume ok: "run slot os cpprefs self workspace = Inr workspace'"
  then obtain root where root: "get_base_directory os cpprefs self = Inr root"
    by (cases "get_base_directory os cpprefs self") (auto simp: run_def Let_def)
  from run_result [OF root, of slot workspace] ok obtain items where
    "providers (image_set workspace') = providers (image_set workspace) @
            map (\<lambda>(n, f). LoadImagesImageProvider n root f) items"
    "length items = length (get_file_names self workspace)" by auto
  moreover have "map provider_pathname (map (\<lambda>(n, f). LoadImagesImageProvider n root f) items) =
     replicate (length items) root"
    by (induction items) auto
  ultimately show "\<exists>root. get_base_directory os cpprefs self = Inr root \<and>
         map provider_pathname
           (drop (length (providers (image_set workspace))) (providers (image_set workspace'))) =
         replicate (length (get_file_names self workspace)) root"
    using root by simp
qed

theorem one_folder_for_all_files_witness:
  "run by_length posix folders two_files (cycle 0 (plate ''P7'')) =
     Inr ((cycle 0 (plate ''P7''))\<lparr>image_set := \<lparr>providers =
            [LoadImagesImageProvider ''Mask'' ''/in'' ''mask.png'',
             LoadImagesImageProvider ''Illum'' ''/in'' ''illum_P7.tif'']\<rparr>\<rparr>) \<and>
   get_base_directory posix folders two_files = Inr ''/in'' \<and>
   map provider_pathname
     [LoadImagesImageProvider ''Mask'' ''/in'' ''mask.png'',
      LoadImagesImageProvider ''Illum'' ''/in'' ''illum_P7.tif''] = [''/in'', ''/in'']"
proof -
  let ?after = "(cycle 0 (plate ''P7''))\<lparr>image_set := \<lparr>providers =
            [LoadImagesImageProvider ''Mask'' ''/in'' ''mask.png'',
             LoadImagesImageProvider ''Illum'' ''/in'' ''illum_P7.tif'']\<rparr>\<rparr>"
  have ran: "run by_length posix folders two_files (cycle 0 (plate ''P7'')) = Inr ?after"
    by (simp add: run_defs example_defs)
  from one_folder_for_all_files
    [where os = posix and cpprefs = folders and self = two_files and slot = by_length
       and workspace = "cycle 0 (plate ''P7'')" and workspace' = ?after]
    ran
  obtain root where "get_base_directory posix folders two_files = Inr root"
    "map provider_pathname
           (drop (length (providers (image_set (cycle 0 (plate ''P7'')))))
              (providers (image_set ?after))) =
         replicate (length (get_file_names two_files (cycle 0 (plate ''P7'')))) root"
    by blast
  with ran show ?thesis by (simp add: cycle_def get_base_directory_def example_defs)
qed

text \<open>
  A module with two file entries serialises one folder choice and one custom folder
  followed by two (file name, image name) pairs, and both of its providers are given the
  same folder, whichever folder is chosen.
\<close>

theorem per_file_folder_counterexample:
  "map value_of (settings two_files) =
     [DIR_DEFAULT_IMAGE_FOLDER, ''.'', ''illum_<plate>.tif'', ''Illum'', ''mask.png'', ''Mask''] \<and>
   run by_length posix folders two_files (cycle 0 (plate ''P7'')) =
     Inr ((cycle 0 (plate ''P7''))\<lparr>image_set := \<lparr>providers =
            [LoadImagesImageProvider ''Mask'' ''/in'' ''mask.png'',
             LoadImagesImageProvider ''Illum'' ''/in'' ''illum_P7.tif'']\<rparr>\<rparr>) \<and>
   run by_length posix folders
     (two_files\<lparr>dir_choice := Choice ''Which folder contains the image files?''
                                dir_choices DIR_DEFAULT_OUTPUT_FOLDER\<rparr>)
     (cycle 0 (plate ''P7'')) =
     Inr ((cycle 0 (plate ''P7''))\<lparr>image_set := \<lparr>providers =
            [LoadImagesImageProvider ''Mask'' ''/out'' ''mask.png'',
             LoadImagesImageProvider ''Illum'' ''/out'' ''illum_P7.tif'']\<rparr>\<rparr>)"
  by (simp add: run_defs settings_def example_defs)

text \<open>
  \<^bold>\<open>C4.\<close> \<^verbatim>\<open>run\<close> only appends to the list of providers: when it returns, the providers
  that were in the image set before are a prefix of the providers afterwards and the rest of
  the image set is as before. It raises only for a folder choice that is none of the three
  choices, and then before anything is appended.
\<close>

theorem run_only_appends:
  "case run slot os cpprefs self workspace of
     Inr workspace' \<Rightarrow>
       prefix (providers (image_set workspace)) (providers (image_set workspace')) \<and>
       image_set.more (image_set workspace') = image_set.more (image_set workspace)
   | Inl e \<Rightarrow> e = UnboundLocalError \<and> value_of (dir_choice self) \<notin> set dir_choices"
proof (cases "run slot os cpprefs self workspace")
  case (Inl e)
  with run_raises [of slot os cpprefs self workspace e] show ?thesis by simp
next
  case (Inr workspace')
  then obtain root where root: "get_base_directory os cpprefs self = Inr root"
    by (cases "get_base_directory os cpprefs self") (auto simp: run_def Let_def)
  from run_result [OF root, of slot workspace] Inr show ?thesis by auto
qed

text \<open>
  \<^bold>\<open>C8.\<close> When two file entries have the same image name, the dictionary has fewer items
  than there are file entries, the item of that image name holds the substituted file pattern
  of the last entry with that name, and \<^verbatim>\<open>run\<close> registers exactly one provider per distinct
  image name.
\<close>

theorem duplicate_image_names_collapse:
  assumes "i < j" and "j < length (file_settings self)"
    and "value_of (FD_IMAGE_NAME (file_settings self ! i)) = name"
    and "value_of (FD_IMAGE_NAME (file_settings self ! j)) = name"
    and "value_of (dir_choice self) \<in> set dir_choices"
  shows "length (get_file_names self workspace) < length (file_settings self) \<and>
     map_of (get_file_names self workspace) name =
       Some (apply_metadata (measurements workspace)
               (value_of (FD_FILE_NAME
                  (last (filter (\<lambda>d. value_of (FD_IMAGE_NAME d) = name)
                     (file_settings self)))))) \<and>
     (\<exists>new workspace'.
        run slot os cpprefs self workspace = Inr workspace' \<and>
        providers (image_set workspace') = providers (image_set workspace) @ new \<and>
        distinct (map provider_name new) \<and>
        set (map provider_name new) =
          (\<lambda>d. value_of (FD_IMAGE_NAME d)) ` set (file_settings self) \<and>
        length new = card ((\<lambda>d. value_of (FD_IMAGE_NAME d)) ` set (file_settings self)))"
proof -
  let ?names = "map (\<lambda>d. value_of (FD_IMAGE_NAME d)) (file_settings self)"
  let ?dict = "get_file_names self workspace"
  have card: "length ?dict = card (set ?names)"
    using distinct_card [OF get_file_names_distinct [of self workspace]]
          get_file_names_keys [of self workspace] by simp
  from assms have "i < length ?names" "j < length ?names" "i \<noteq> j" "?names ! i = ?names ! j"
    by simp_all
  then have "\<not> distinct ?names"
    unfolding distinct_conv_nth by blast
  then have "card (set ?names) < length ?names"
    using card_length [of ?names] distinct_card [of ?names] card_distinct [of ?names]
    by (cases "card (set ?names) = length ?names") auto
  with card have fewer: "length ?dict < length (file_settings self)" by simp
  let ?same = "filter (\<lambda>d. value_of (FD_IMAGE_NAME d) = name) (file_settings self)"
  from assms have "file_settings self ! j \<in> set ?same" by simp
  then have ne: "?same \<noteq> []" by (metis empty_iff empty_set)
  have flt: "filter (\<lambda>p. fst p = name) (map (entry_of workspace) (file_settings self)) =
        map (entry_of workspace) ?same"
    by (simp add: filter_map o_def entry_of_def)
  have "map_of ?dict name =
        map_of (rev (map (entry_of workspace) (file_settings self))) name"
    by (simp add: get_file_names_def get_file_names_loop_map_of)
  also have "\<dots> = Some (snd (last (map (entry_of workspace) ?same)))"
    using map_of_rev_last [of name "map (entry_of workspace) (file_settings self)"] ne
    by (simp add: flt)
  also have "\<dots> = Some (apply_metadata (measurements workspace)
               (value_of (FD_FILE_NAME (last ?same))))"
    using ne by (simp add: last_map entry_of_def)
  finally have kept: "map_of ?dict name = Some (apply_metadata (measurements workspace)
               (value_of (FD_FILE_NAME (last ?same))))" .
  from get_base_directory_total [OF assms(5)] obtain root where
    root: "get_base_directory os cpprefs self = Inr root" by blast
  from run_result [OF root, of slot workspace] obtain items workspace' where
    run: "run slot os cpprefs self workspace = Inr workspace'" and
    reg: "providers (image_set workspace') = providers (image_set workspace) @
            map (\<lambda>(n, f). LoadImagesImageProvider n root f) items" and
    items: "map fst items = dict_keys slot ?dict" "length items = length ?dict"
    by auto
  let ?new = "map (\<lambda>(n, f). LoadImagesImageProvider n root f) items"
  have names: "map provider_name ?new = map fst items"
    by (induction items) auto
  have d: "distinct (map provider_name ?new)"
    using get_file_names_distinct [of self workspace]
    by (simp only: names items dict_keys_def distinct_sort)
  have s: "set (map provider_name ?new) =
          (\<lambda>d. value_of (FD_IMAGE_NAME d)) ` set (file_settings self)"
    using get_file_names_keys [of self workspace]
    by (simp only: names items dict_keys_def set_sort set_map)
  have l: "length ?new = card ((\<lambda>d. value_of (FD_IMAGE_NAME d)) ` set (file_settings self))"
    using card items by simp
  from fewer kept run reg d s l show ?thesis by blast
qed

theorem duplicate_image_names_collapse_witness:
  "(0::nat) < 2 \<and> 2 < length (file_settings same_name) \<and>
   value_of (FD_IMAGE_NAME (file_settings same_name ! 0)) = ''Illum'' \<and>
   value_of (FD_IMAGE_NAME (file_settings same_name ! 2)) = ''Illum'' \<and>
   value_of (dir_choice same_name) \<in> set dir_choices \<and>
   length (get_file_names same_name (cycle 0 (plate ''P7''))) < 3 \<and>
   map_of (get_file_names same_name (cycle 0 (plate ''P7''))) ''Illum'' = Some ''last.tif'' \<and>
   (\<exists>new workspace'.
      run by_length posix folders same_name (cycle 0 (plate ''P7'')) = Inr workspace' \<and>
      providers (image_set workspace') = new \<and> length new = 2)"
proof -
  have h: "(0::nat) < 2" "2 < length (file_settings same_name)"
    "value_of (FD_IMAGE_NAME (file_settings same_name ! 0)) = ''Illum''"
    "value_of (FD_IMAGE_NAME (file_settings same_name ! 2)) = ''Illum''"
    "value_of (dir_choice same_name) \<in> set dir_choices"
    by (simp_all add: example_defs)
  have names: "(\<lambda>d. value_of (FD_IMAGE_NAME d)) ` set (file_settings same_name) =
      {''Illum'', ''Mask''}"
    by (auto simp: example_defs)
  have kept: "apply_metadata (measurements (cycle 0 (plate ''P7'')))
               (value_of (FD_FILE_NAME
                  (last (filter (\<lambda>d. value_of (FD_IMAGE_NAME d) = ''Illum'')
                     (file_settings same_name))))) = ''last.tif''"
    by (simp add: example_defs)
  have three: "length (file_settings same_name) = 3" by (simp add: example_defs)
  have two: "card {''Illum'', ''Mask''} = 2" by simp
  from duplicate_image_names_collapse [OF h, of "cycle 0 (plate ''P7'')" by_length posix folders]
  obtain new workspace' where
    fewer: "length (get_file_names same_name (cycle 0 (plate ''P7''))) < 3" and
    last: "map_of (get_file_names same_name (cycle 0 (plate ''P7''))) ''Illum'' =
             Some ''last.tif''" and
    ran: "run by_length posix folders same_name (cycle 0 (plate ''P7'')) = Inr workspace'" and
    reg: "providers (image_set workspace') =
            providers (image_set (cycle 0 (plate ''P7''))) @ new" and
    len: "length new = 2"
    unfolding names kept three two by blast
  from reg have "providers (image_set workspace') = new" by (simp add: cycle_def)
  with h fewer last ran len show ?thesis by blast
qed

end
